theory Spec2Isabelle
  imports Complex_Main
begin

section \<open>Python text\<close>

text \<open>
  A Python \<open>str\<close> is a sequence of Unicode code points; \<open>ord\<close> reads a
  code point and \<open>chr\<close> builds a one-character string from one. Text is therefore a list
  of code points (natural numbers), so that the cipher's arithmetic on \<open>ord(char)\<close> is
  the arithmetic of the source. \<open>lit\<close> turns a literal of the theory into such a text.

  The character classes and case mappings below (\<open>str.isdigit\<close>, \<open>str.strip\<close>,
  \<open>str.lower\<close>, \<open>str.upper\<close>) are exact on the code points 0 to 127. Above 127
  Python consults the Unicode database, which is not part of this development: there
  \<open>isdigit\<close> and \<open>isspace\<close> are taken to be false and the case mappings to be the
  identity.
\<close>

type_synonym pystr = "nat list"

abbreviation ord :: "char \<Rightarrow> nat" where
  "ord \<equiv> of_char"

definition lit :: "string \<Rightarrow> pystr" where
  "lit s = map ord s"

definition isdigit :: "nat \<Rightarrow> bool" where
  "isdigit c \<longleftrightarrow> 48 \<le> c \<and> c \<le> 57"

definition isspace :: "nat \<Rightarrow> bool" where
  "isspace c \<longleftrightarrow> (9 \<le> c \<and> c \<le> 13) \<or> (28 \<le> c \<and> c \<le> 32)"

definition lower_char :: "nat \<Rightarrow> nat" where
  "lower_char c = (if 65 \<le> c \<and> c \<le> 90 then c + 32 else c)"

definition upper_char :: "nat \<Rightarrow> nat" where
  "upper_char c = (if 97 \<le> c \<and> c \<le> 122 then c - 32 else c)"

definition lower :: "pystr \<Rightarrow> pystr" where
  "lower s = map lower_char s"

definition upper :: "pystr \<Rightarrow> pystr" where
  "upper s = map upper_char s"

definition strip :: "pystr \<Rightarrow> pystr" where
  "strip s = rev (dropWhile isspace (rev (dropWhile isspace s)))"

text \<open>\<open>s.rstrip(ch)\<close> for a one-character \<open>ch\<close>.\<close>

definition rstrip_char :: "nat \<Rightarrow> pystr \<Rightarrow> pystr" where
  "rstrip_char ch s = rev (dropWhile (\<lambda>c. c = ch) (rev s))"

definition startswith :: "pystr \<Rightarrow> pystr \<Rightarrow> bool" where
  "startswith s p \<longleftrightarrow> take (length p) s = p"

text \<open>\<open>s.split(ch)\<close> for a one-character separator: the pieces between its occurrences.\<close>

fun split_char :: "nat \<Rightarrow> pystr \<Rightarrow> pystr list" where
  "split_char ch [] = [[]]"
| "split_char ch (c # cs) =
     (if c = ch then [] # split_char ch cs
      else (case split_char ch cs of
              p # ps \<Rightarrow> (c # p) # ps
            | [] \<Rightarrow> [[c]]))"

text \<open>
  \<open>s.replace(old, new)\<close>: the occurrences of \<open>old\<close> are found from the left and do
  not overlap. For an empty \<open>old\<close> Python puts \<open>new\<close> before every character and at
  the end.
\<close>

function replace_from :: "pystr \<Rightarrow> pystr \<Rightarrow> pystr \<Rightarrow> pystr" where
  "replace_from old new [] = []"
| "replace_from old new (c # cs) =
     (if old \<noteq> [] \<and> startswith (c # cs) old
      then new @ replace_from old new (drop (length old) (c # cs))
      else c # replace_from old new cs)"
  by pat_completeness auto
termination
  by (relation "measure (\<lambda>(old, new, s). length s)") auto

definition replace :: "pystr \<Rightarrow> pystr \<Rightarrow> pystr \<Rightarrow> pystr" where
  "replace s old new =
     (if old = [] then new @ concat (map (\<lambda>c. c # new) s)
      else replace_from old new s)"

text \<open>\<open>str(n)\<close> for an integer: its decimal digits, with a minus sign when negative.\<close>

function digits_of :: "nat \<Rightarrow> pystr" where
  "digits_of n = (if n < 10 then [48 + n] else digits_of (n div 10) @ [48 + n mod 10])"
  by pat_completeness auto
termination
  by (relation "measure id") auto

definition str_int :: "int \<Rightarrow> pystr" where
  "str_int i = (if i < 0 then lit ''-'' @ digits_of (nat (- i)) else digits_of (nat i))"

section \<open>Exceptions and floats\<close>

datatype exn = TypeError | ValueError | KeyError

text \<open>
  A Python float is represented by the exact rational value of the decimal text it was
  read from; the rounding to binary64, the infinities and the overflow of \<open>**\<close> are
  not modelled.

  \<open>float(s)\<close> is modelled on the alphabet that the parsers' filters let through (the
  digits, \<open>.\<close> and \<open>-\<close>): an optional minus sign, digits with at most one
  \<open>.\<close>, and at least one digit. Everything else raises ValueError.
\<close>

definition digits_value :: "pystr \<Rightarrow> nat" where
  "digits_value ds = foldl (\<lambda>a c. 10 * a + (c - 48)) 0 ds"

definition float_unsigned :: "pystr \<Rightarrow> exn + rat" where
  "float_unsigned s =
     (let ip = takeWhile isdigit s; rest = dropWhile isdigit s in
      case rest of
        [] \<Rightarrow> if ip = [] then Inl ValueError else Inr (of_nat (digits_value ip))
      | c # fp \<Rightarrow>
          if c = ord CHR ''.'' \<and> list_all isdigit fp \<and> \<not> (ip = [] \<and> fp = [])
          then Inr (of_nat (digits_value (ip @ fp)) / 10 ^ length fp)
          else Inl ValueError)"

definition py_float :: "pystr \<Rightarrow> exn + rat" where
  "py_float s =
     (case s of
        [] \<Rightarrow> Inl ValueError
      | c # cs \<Rightarrow>
          if c = ord CHR ''-'' then (case float_unsigned cs of Inl e \<Rightarrow> Inl e | Inr r \<Rightarrow> Inr (- r))
          else float_unsigned s)"

text \<open>
  \<open>str(x)\<close> for a float: sign, integer digits, \<open>.\<close> and the fraction digits of the
  exact value (at most 17 of them, at least one). This is Python's \<open>repr\<close> for the
  floats that print positionally and exactly, such as 0.5 or 1234.0.
\<close>

fun frac_digits :: "nat \<Rightarrow> rat \<Rightarrow> pystr" where
  "frac_digits 0 r = []"
| "frac_digits (Suc n) r =
     (if r = 0 then []
      else (48 + nat \<lfloor>r * 10\<rfloor>) # frac_digits n (r * 10 - of_int \<lfloor>r * 10\<rfloor>))"

definition float_repr :: "rat \<Rightarrow> pystr" where
  "float_repr r =
     (let a = \<bar>r\<bar>; ip = \<lfloor>a\<rfloor>; fp = frac_digits 17 (a - of_int ip) in
      (if r < 0 then lit ''-'' else []) @ digits_of (nat ip) @ lit ''.'' @
      (if fp = [] then lit ''0'' else fp))"

section \<open>Cell values\<close>

text \<open>
  The values a table cell holds: \<open>None\<close>, a float NaN, a text, an integer, a float.
  \<open>pd.isna\<close> is true of the first two, which are the missing markers.
\<close>

datatype pyval = PNone | PNaN | PStr pystr | PInt int | PFloat rat

fun isna :: "pyval \<Rightarrow> bool" where
  "isna PNone = True"
| "isna PNaN = True"
| "isna (PStr s) = False"
| "isna (PInt i) = False"
| "isna (PFloat r) = False"

fun str :: "pyval \<Rightarrow> pystr" where
  "str PNone = lit ''None''"
| "str PNaN = lit ''nan''"
| "str (PStr s) = s"
| "str (PInt i) = str_int i"
| "str (PFloat r) = float_repr r"

section \<open>The cipher's per-value functions\<close>

text \<open>\<open>sum(ord(c) for c in code_name)\<close>\<close>

definition numeric_key :: "pystr \<Rightarrow> int" where
  "numeric_key code_name = sum_list (map int code_name)"

definition encrypt_value :: "pyval \<Rightarrow> pystr \<Rightarrow> pyval" where
  "encrypt_value v code_name =
     (if isna v then PNone
      else PStr (map (\<lambda>char. nat ((int char + numeric_key code_name) mod 128)) (str v)))"

definition decrypt_value :: "pyval \<Rightarrow> pystr \<Rightarrow> pyval" where
  "decrypt_value v code_name =
     (if isna v then PNone
      else PStr (map (\<lambda>char. nat ((int char - numeric_key code_name) mod 128)) (str v)))"


section \<open>The per-value parsers of \<open>DataCleaner\<close>\<close>

text \<open>
  Each parser is the inner function of the method of the same kind. It returns
  \<open>Inr\<close> of its result, or \<open>Inl\<close> of the exception that leaves it.
\<close>

definition clean_phone :: "int \<Rightarrow> pyval \<Rightarrow> exn + pyval" where
  "clean_phone min_digits phone =
     (if isna phone then Inr PNone
      else let cleaned = filter isdigit (str phone) in
           if int (length cleaned) \<ge> min_digits then Inr (PStr cleaned) else Inr PNone)"

definition clean_amount :: "pyval \<Rightarrow> exn + pyval" where
  "clean_amount v =
     (if isna v then Inr PNone
      else let cleaned = filter (\<lambda>char. isdigit char \<or> char = ord CHR ''.'') (str v) in
           if cleaned \<noteq> []
           then (case py_float cleaned of Inl e \<Rightarrow> Inl e | Inr r \<Rightarrow> Inr (PFloat r))
           else Inr PNone)"

definition clean_percentage :: "pyval \<Rightarrow> exn + pyval" where
  "clean_percentage v =
     (if isna v then Inr PNone
      else let cleaned = filter (\<lambda>char. isdigit char \<or> char = ord CHR ''.'') (str v) in
           if cleaned \<noteq> []
           then (case py_float cleaned of Inl e \<Rightarrow> Inl e | Inr r \<Rightarrow> Inr (PFloat (r / 100)))
           else Inr PNone)"

definition clean_email :: "pyval \<Rightarrow> exn + pyval" where
  "clean_email email =
     (if isna email then Inr PNone
      else let cleaned = lower (strip (str email)) in
           if ord CHR ''@'' \<in> set cleaned then Inr (PStr cleaned) else Inr PNone)"

definition url_prefixes :: "pystr list" where
  "url_prefixes = [lit ''http://'', lit ''https://'', lit ''www.'']"

text \<open>The loop over the prefixes has no \<open>break\<close>: every prefix is tried, in order.\<close>

fun strip_prefixes :: "pystr list \<Rightarrow> pystr \<Rightarrow> pystr" where
  "strip_prefixes [] cleaned = cleaned"
| "strip_prefixes (prefix # prefixes) cleaned =
     (if startswith cleaned prefix
      then strip_prefixes prefixes (drop (length prefix) cleaned)
      else strip_prefixes prefixes cleaned)"

definition clean_url :: "pyval \<Rightarrow> exn + pyval" where
  "clean_url url =
     (if isna url then Inr PNone
      else let cleaned = lower (strip (str url));
               cleaned = strip_prefixes url_prefixes cleaned in
           if cleaned \<noteq> [] then Inr (PStr (rstrip_char (ord CHR ''/'') cleaned))
           else Inr PNone)"

text \<open>
  The body of the \<open>try\<close> of \<open>clean_scientific\<close>. Unpacking \<open>split('e')\<close> into two
  names raises ValueError unless there are exactly two pieces. The exponent is read
  from digits and \<open>-\<close> only, so its value is a whole number.
\<close>

definition scientific_try :: "pystr \<Rightarrow> exn + pyval" where
  "scientific_try str_val =
     (case split_char (ord CHR ''e'') str_val of
        [base, exponent] \<Rightarrow>
          (case py_float (filter (\<lambda>c. isdigit c \<or> c = ord CHR ''.'') base) of
             Inl e \<Rightarrow> Inl e
           | Inr b \<Rightarrow>
               (case py_float (filter (\<lambda>c. isdigit c \<or> c = ord CHR ''-'') exponent) of
                  Inl e \<Rightarrow> Inl e
                | Inr x \<Rightarrow> Inr (PFloat (b * (10 powi \<lfloor>x\<rfloor>)))))
      | _ \<Rightarrow> Inl ValueError)"

definition clean_scientific :: "pyval \<Rightarrow> exn + pyval" where
  "clean_scientific v =
     (if isna v then Inr PNone
      else let str_val = lower (str v) in
           if ord CHR ''e'' \<in> set str_val
           then (case scientific_try str_val of Inl e \<Rightarrow> Inr PNone | Inr r \<Rightarrow> Inr r)
           else let cleaned = filter (\<lambda>char. isdigit char \<or> char = ord CHR ''.'') str_val in
                if cleaned \<noteq> []
                then (case py_float cleaned of Inl e \<Rightarrow> Inl e | Inr r \<Rightarrow> Inr (PFloat r))
                else Inr PNone)"

text \<open>
  \<open>self.roman_values\<close>, a dict. \<open>k in d\<close> tests the keys; \<open>d[k]\<close> raises KeyError
  for a key that is absent.
\<close>

definition roman_values :: "(nat \<times> int) list" where
  "roman_values =
     [(ord CHR ''I'', 1), (ord CHR ''V'', 5), (ord CHR ''X'', 10), (ord CHR ''L'', 50),
      (ord CHR ''C'', 100), (ord CHR ''D'', 500), (ord CHR ''M'', 1000)]"

definition contains :: "('k \<times> 'v) list \<Rightarrow> 'k \<Rightarrow> bool" where
  "contains d k = (case map_of d k of None \<Rightarrow> False | Some v \<Rightarrow> True)"

definition getitem :: "('k \<times> 'v) list \<Rightarrow> 'k \<Rightarrow> exn + 'v" where
  "getitem d k = (case map_of d k of None \<Rightarrow> Inl KeyError | Some v \<Rightarrow> Inr v)"

text \<open>The loop \<open>for i in range(len(roman))\<close>, with the running \<open>result\<close>.\<close>

function roman_loop :: "pystr \<Rightarrow> nat \<Rightarrow> int \<Rightarrow> exn + int" where
  "roman_loop roman i result =
     (if i < length roman then
        (if i + 1 < length roman then
           (case getitem roman_values (roman ! i) of
              Inl e \<Rightarrow> Inl e
            | Inr cur \<Rightarrow>
                (case getitem roman_values (roman ! (i + 1)) of
                   Inl e \<Rightarrow> Inl e
                 | Inr nxt \<Rightarrow>
                     if cur < nxt then roman_loop roman (i + 1) (result - cur)
                     else roman_loop roman (i + 1) (result + cur)))
         else
           (case getitem roman_values (roman ! i) of
              Inl e \<Rightarrow> Inl e
            | Inr cur \<Rightarrow> roman_loop roman (i + 1) (result + cur)))
      else Inr result)"
  by pat_completeness auto
termination
  by (relation "measure (\<lambda>(roman, i, result). length roman - i)") auto

definition clean_roman :: "pyval \<Rightarrow> exn + pyval" where
  "clean_roman roman_str =
     (if isna roman_str then Inr PNone
      else let roman = upper (strip (str roman_str)) in
           if \<not> list_all (\<lambda>char. contains roman_values char) roman then Inr PNone
           else (case roman_loop roman 0 0 of
                   Inl e \<Rightarrow> Inl e
                 | Inr result \<Rightarrow> Inr (PInt result)))"

section \<open>Printed lines\<close>

text \<open>
  What the code prints, one constructor for each format string:
  \<open>Warning: Column '{col}' not found in DataFrame\<close>,
  \<open>Error processing column '{col}': {str(e)}\<close>,
  \<open>Warning: Column '{col}' not found\<close> (the cipher's) and
  \<open>Error processing value {value}: {str(e)}\<close> (in \<open>main.py\<close>).
\<close>

datatype line =
    Warning_not_found_in_DataFrame pystr
  | Error_processing_column pystr exn
  | Warning_not_found pystr
  | Error_processing_value pyval exn

section \<open>The per-value functions of \<open>main.py\<close>\<close>

text \<open>
  \<open>extract_digits\<close> and \<open>extract_numbers\<close> wrap their body in \<open>try\<close>: an exception
  is printed and the value becomes \<open>None\<close>. They return the value and the lines printed.
\<close>

definition extract_digits_try :: "pyval \<Rightarrow> exn + pyval" where
  "extract_digits_try phone =
     (if isna phone then Inr PNone
      else let cleaned = filter isdigit (str phone) in
           if length cleaned < 9 then Inr PNone else Inr (PStr cleaned))"

definition extract_digits :: "pyval \<Rightarrow> pyval \<times> line list" where
  "extract_digits phone =
     (case extract_digits_try phone of
        Inr r \<Rightarrow> (r, [])
      | Inl e \<Rightarrow> (PNone, [Error_processing_value phone e]))"

definition extract_numbers_try :: "pyval \<Rightarrow> exn + pyval" where
  "extract_numbers_try v =
     (if isna v then Inr PNone
      else let cleaned = filter (\<lambda>char. isdigit char \<or> char = ord CHR ''.'') (str v) in
           if cleaned \<noteq> []
           then (case py_float cleaned of Inl e \<Rightarrow> Inl e | Inr r \<Rightarrow> Inr (PFloat r))
           else Inr PNone)"

definition extract_numbers :: "pyval \<Rightarrow> pyval \<times> line list" where
  "extract_numbers v =
     (case extract_numbers_try v of
        Inr r \<Rightarrow> (r, [])
      | Inl e \<Rightarrow> (PNone, [Error_processing_value v e]))"

section \<open>Tables and the store\<close>

text \<open>
  A DataFrame is the ordered list of its columns, each a name with its values; a name
  is looked up from the left. The model is of frames whose column names are distinct
  and whose columns have one length, the row count.

  DataFrames are mutable objects: \<open>df.copy()\<close> makes a new object, \<open>df[col] = ...\<close>
  changes the object in place, and \<open>df.drop(col, axis=1)\<close> makes a new object. The
  store \<open>frames\<close> holds every DataFrame object made so far, a reference being the
  position in the store. A reference taken from a caller is meant to be below
  \<open>length (frames w)\<close>. \<open>stdout\<close> holds the lines printed so far.

  A column that has been cleaned holds the values that the per-value function
  returned. The conversion that pandas then applies to a column of numbers (a
  \<open>None\<close> among floats becomes NaN, integers beside it become floats) is not
  modelled.
\<close>

type_synonym column = "pyval list"

type_synonym table = "(pystr \<times> column) list"

record world =
  frames :: "table list"
  stdout :: "line list"

definition print :: "world \<Rightarrow> line \<Rightarrow> world" where
  "print w l = w\<lparr>stdout := stdout w @ [l]\<rparr>"

text \<open>A new DataFrame object holding \<open>t\<close>: its reference and the store with it.\<close>

definition new_frame :: "world \<Rightarrow> table \<Rightarrow> nat \<times> world" where
  "new_frame w t = (length (frames w), w\<lparr>frames := frames w @ [t]\<rparr>)"

text \<open>\<open>df.copy()\<close>\<close>

definition copy :: "world \<Rightarrow> nat \<Rightarrow> nat \<times> world" where
  "copy w df = new_frame w (frames w ! df)"

text \<open>
  \<open>df[name] = values\<close> on the table of a frame: an existing column is replaced where
  it stands, a new one is added at the end.
\<close>

fun setitem :: "table \<Rightarrow> pystr \<Rightarrow> column \<Rightarrow> table" where
  "setitem [] name vals = [(name, vals)]"
| "setitem ((n, c) # rest) name vals =
     (if n = name then (n, vals) # rest else (n, c) # setitem rest name vals)"

text \<open>The table of \<open>df.drop(name, axis=1)\<close>.\<close>

definition drop_column :: "table \<Rightarrow> pystr \<Rightarrow> table" where
  "drop_column t name = filter (\<lambda>(n, c). n \<noteq> name) t"

text \<open>\<open>series.apply(func)\<close>: the values from first to last; the first exception ends it.\<close>

fun apply_series :: "(pyval \<Rightarrow> exn + pyval) \<Rightarrow> column \<Rightarrow> exn + column" where
  "apply_series func [] = Inr []"
| "apply_series func (x # xs) =
     (case func x of
        Inl e \<Rightarrow> Inl e
      | Inr y \<Rightarrow> (case apply_series func xs of Inl e \<Rightarrow> Inl e | Inr ys \<Rightarrow> Inr (y # ys)))"

section \<open>Validation and the column loop\<close>

text \<open>
  The arguments of the public methods are checked with \<open>isinstance\<close>, so they are
  Python objects: a DataFrame (a reference), a list of names, or an object that is
  neither.
\<close>

datatype pyobj = DataFrame (frame_of: nat) | PyList (items: "pystr list") | OtherObject

definition validate_inputs :: "pyobj \<Rightarrow> pyobj \<Rightarrow> exn + unit" where
  "validate_inputs df col_names =
     (if \<not> is_DataFrame df then Inl TypeError
      else if \<not> is_PyList col_names then Inl TypeError
      else if items col_names = [] then Inl ValueError
      else Inr ())"

text \<open>The loop of \<open>_process_columns\<close> over \<open>col_names\<close>, on the frame \<open>df\<close> (the copy).\<close>

fun process_loop ::
  "world \<Rightarrow> nat \<Rightarrow> pystr list \<Rightarrow> (pyval \<Rightarrow> exn + pyval) \<Rightarrow> world" where
  "process_loop w df [] cleaning_func = w"
| "process_loop w df (col # cols) cleaning_func =
     (case map_of (frames w ! df) col of
        None \<Rightarrow> process_loop (print w (Warning_not_found_in_DataFrame col)) df cols cleaning_func
      | Some series \<Rightarrow>
          (case apply_series cleaning_func series of
             Inl e \<Rightarrow> process_loop (print w (Error_processing_column col e)) df cols cleaning_func
           | Inr cleaned \<Rightarrow>
               process_loop (w\<lparr>frames := (frames w)[df := setitem (frames w ! df) col cleaned]\<rparr>)
                 df cols cleaning_func))"

text \<open>The result is the exception raised or the reference returned, and the world after.\<close>

definition process_columns ::
  "world \<Rightarrow> pyobj \<Rightarrow> pyobj \<Rightarrow> (pyval \<Rightarrow> exn + pyval) \<Rightarrow> (exn + nat) \<times> world" where
  "process_columns w df col_names cleaning_func =
     (case validate_inputs df col_names of
        Inl e \<Rightarrow> (Inl e, w)
      | Inr u \<Rightarrow>
          (case copy w (frame_of df) of
             (df', w') \<Rightarrow> (Inr df', process_loop w' df' (items col_names) cleaning_func)))"

section \<open>The public methods of \<open>DataCleaner\<close>\<close>

definition clean_phone_numbers ::
  "world \<Rightarrow> pyobj \<Rightarrow> pyobj \<Rightarrow> int \<Rightarrow> (exn + nat) \<times> world" where
  "clean_phone_numbers w df col_names min_digits =
     process_columns w df col_names (clean_phone min_digits)"

definition clean_monetary_values :: "world \<Rightarrow> pyobj \<Rightarrow> pyobj \<Rightarrow> (exn + nat) \<times> world" where
  "clean_monetary_values w df col_names = process_columns w df col_names clean_amount"

definition clean_percentages :: "world \<Rightarrow> pyobj \<Rightarrow> pyobj \<Rightarrow> (exn + nat) \<times> world" where
  "clean_percentages w df col_names = process_columns w df col_names clean_percentage"

definition clean_emails :: "world \<Rightarrow> pyobj \<Rightarrow> pyobj \<Rightarrow> (exn + nat) \<times> world" where
  "clean_emails w df col_names = process_columns w df col_names clean_email"

definition clean_urls :: "world \<Rightarrow> pyobj \<Rightarrow> pyobj \<Rightarrow> (exn + nat) \<times> world" where
  "clean_urls w df col_names = process_columns w df col_names clean_url"

definition clean_scientific_notation ::
  "world \<Rightarrow> pyobj \<Rightarrow> pyobj \<Rightarrow> (exn + nat) \<times> world" where
  "clean_scientific_notation w df col_names = process_columns w df col_names clean_scientific"

definition clean_roman_numerals :: "world \<Rightarrow> pyobj \<Rightarrow> pyobj \<Rightarrow> (exn + nat) \<times> world" where
  "clean_roman_numerals w df col_names = process_columns w df col_names clean_roman"

text \<open>
  \<open>encrypt_columns\<close> and \<open>decrypt_columns\<close> do not call \<open>_validate_inputs\<close> or
  \<open>_process_columns\<close>; they have a loop of their own, with no \<open>isinstance\<close> check
  and no \<open>try\<close>. They are modelled on arguments of their annotated types, a DataFrame
  and a list of names. Each round changes the current frame in place and then takes
  the new frame that \<open>drop\<close> returns as the current one.
\<close>

fun encrypt_loop :: "world \<Rightarrow> nat \<Rightarrow> pystr list \<Rightarrow> pystr \<Rightarrow> nat \<times> world" where
  "encrypt_loop w df [] code_name = (df, w)"
| "encrypt_loop w df (col # cols) code_name =
     (case map_of (frames w ! df) col of
        None \<Rightarrow> encrypt_loop (print w (Warning_not_found col)) df cols code_name
      | Some series \<Rightarrow>
          (let new_col = col @ lit ''_encrypted'';
               w1 = w\<lparr>frames := (frames w)[df := setitem (frames w ! df) new_col
                                      (map (\<lambda>x. encrypt_value x code_name) series)]\<rparr>
           in case new_frame w1 (drop_column (frames w1 ! df) col) of
                (df2, w2) \<Rightarrow> encrypt_loop w2 df2 cols code_name))"

definition encrypt_columns :: "world \<Rightarrow> nat \<Rightarrow> pystr list \<Rightarrow> pystr \<Rightarrow> nat \<times> world" where
  "encrypt_columns w df col_names code_name =
     (case copy w df of (df', w') \<Rightarrow> encrypt_loop w' df' col_names code_name)"

fun decrypt_loop :: "world \<Rightarrow> nat \<Rightarrow> pystr list \<Rightarrow> pystr \<Rightarrow> nat \<times> world" where
  "decrypt_loop w df [] code_name = (df, w)"
| "decrypt_loop w df (col # cols) code_name =
     (case map_of (frames w ! df) col of
        None \<Rightarrow> decrypt_loop (print w (Warning_not_found col)) df cols code_name
      | Some series \<Rightarrow>
          (let new_col = replace col (lit ''_encrypted'') [];
               w1 = w\<lparr>frames := (frames w)[df := setitem (frames w ! df) new_col
                                      (map (\<lambda>x. decrypt_value x code_name) series)]\<rparr>
           in case new_frame w1 (drop_column (frames w1 ! df) col) of
                (df2, w2) \<Rightarrow> decrypt_loop w2 df2 cols code_name))"

definition decrypt_columns :: "world \<Rightarrow> nat \<Rightarrow> pystr list \<Rightarrow> pystr \<Rightarrow> nat \<times> world" where
  "decrypt_columns w df col_names code_name =
     (case copy w df of (df', w') \<Rightarrow> decrypt_loop w' df' col_names code_name)"

section \<open>The Roman-numeral rule, as the specification words it\<close>

text \<open>
  The value of a symbol, and the sum the specification describes: scanning from left
  to right, a symbol's value is subtracted if the next symbol's value is strictly
  greater, and added otherwise.
\<close>

definition roman_value :: "nat \<Rightarrow> int" where
  "roman_value c = (case map_of roman_values c of None \<Rightarrow> 0 | Some v \<Rightarrow> v)"

fun roman_sum :: "pystr \<Rightarrow> int" where
  "roman_sum [] = 0"
| "roman_sum [c] = roman_value c"
| "roman_sum (c # d # rest) =
     (if roman_value c < roman_value d then - roman_value c else roman_value c)
     + roman_sum (d # rest)"

definition roman_symbols :: "pystr" where
  "roman_symbols = lit ''IVXLCDM''"

section \<open>Reading the printed lines\<close>

text \<open>The column names of the \<open>not found in DataFrame\<close> warnings among printed lines.\<close>

fun warned :: "line list \<Rightarrow> pystr list" where
  "warned [] = []"
| "warned (Warning_not_found_in_DataFrame col # ls) = col # warned ls"
| "warned (l # ls) = warned ls"

section \<open>Properties of the cipher\<close>

lemma shift_back: "c < 128 \<Longrightarrow> nat (((int c + k) mod 128 - k) mod 128) = c"
proof -
  assume c: "c < 128"
  have "((int c + k) mod 128 - k) mod 128 = (int c + k - k) mod 128"
    by (rule mod_diff_left_eq)
  also have "\<dots> = int c"
    using c by simp
  finally show ?thesis
    by simp
qed

text \<open>
  C3. For every text whose code points are all in the range 0 to 127 and every key,
  decrypting the encryption of the text with the same key gives the text back.
\<close>

theorem cipher_round_trip:
  "\<forall>c \<in> set s. c < 128 \<Longrightarrow>
   decrypt_value (encrypt_value (PStr s) k) k = PStr s"
proof -
  assume ascii: "\<forall>c \<in> set s. c < 128"
  have "map ((\<lambda>char. nat ((int char - numeric_key k) mod 128)) \<circ>
            (\<lambda>char. nat ((int char + numeric_key k) mod 128))) s = s"
    using ascii by (intro map_idI) (simp add: shift_back)
  then show ?thesis
    by (simp add: encrypt_value_def decrypt_value_def)
qed

theorem cipher_round_trip_witness:
  "encrypt_value (PStr (lit ''Hi!'')) (lit ''key'') = PStr [17, 50, 106] \<and>
   decrypt_value (encrypt_value (PStr (lit ''Hi!'')) (lit ''key'')) (lit ''key'')
     = PStr (lit ''Hi!'')"
proof -
  have h: "\<forall>c \<in> set (lit ''Hi!''). c < 128"
    by (simp add: lit_def)
  have e: "encrypt_value (PStr (lit ''Hi!'')) (lit ''key'') = PStr [17, 50, 106]"
    by (simp add: encrypt_value_def numeric_key_def lit_def)
  show ?thesis
    using e cipher_round_trip [OF h, of "lit ''key''"] by simp
qed

section \<open>Missing values\<close>

text \<open>
  C2. For every missing value (\<open>None\<close> or NaN), every parser returns \<open>None\<close>: the
  phone, money, percentage, scientific-notation, Roman-numeral, email and URL parsers,
  the cipher's per-value encrypt and decrypt, and the two per-value functions of
  \<open>main.py\<close>, which print nothing.
\<close>

theorem missing_gives_None:
  "isna v \<Longrightarrow>
     clean_phone min_digits v = Inr PNone \<and>
     clean_amount v = Inr PNone \<and>
     clean_percentage v = Inr PNone \<and>
     clean_scientific v = Inr PNone \<and>
     clean_roman v = Inr PNone \<and>
     clean_email v = Inr PNone \<and>
     clean_url v = Inr PNone \<and>
     encrypt_value v k = PNone \<and>
     decrypt_value v k = PNone \<and>
     extract_digits v = (PNone, []) \<and>
     extract_numbers v = (PNone, [])"
  by (simp add: clean_phone_def clean_amount_def clean_percentage_def clean_scientific_def
      clean_roman_def clean_email_def clean_url_def encrypt_value_def decrypt_value_def
      extract_digits_def extract_digits_try_def extract_numbers_def extract_numbers_try_def)

theorem missing_gives_None_witness:
  "isna PNaN \<and>
   clean_phone 9 PNaN = Inr PNone \<and>
   clean_amount PNaN = Inr PNone \<and>
   clean_percentage PNaN = Inr PNone \<and>
   clean_scientific PNaN = Inr PNone \<and>
   clean_roman PNaN = Inr PNone \<and>
   clean_email PNaN = Inr PNone \<and>
   clean_url PNaN = Inr PNone \<and>
   encrypt_value PNaN (lit ''key'') = PNone \<and>
   decrypt_value PNaN (lit ''key'') = PNone \<and>
   extract_digits PNaN = (PNone, []) \<and>
   extract_numbers PNaN = (PNone, [])"
proof -
  have h: "isna PNaN"
    by simp
  show ?thesis
    using h missing_gives_None [OF h, of 9 "lit ''key''"] by simp
qed

section \<open>The Roman-numeral parser\<close>

declare roman_loop.simps [simp del]

lemma contains_symbols: "contains roman_values c \<longleftrightarrow> c \<in> set roman_symbols"
  by (auto simp: contains_def roman_values_def roman_symbols_def lit_def)

lemma getitem_value: "contains roman_values c \<Longrightarrow> getitem roman_values c = Inr (roman_value c)"
  by (auto simp: contains_def getitem_def roman_value_def split: option.splits)

lemma roman_loop_end: "length roman \<le> i \<Longrightarrow> roman_loop roman i result = Inr result"
  by (subst roman_loop.simps) simp

lemma roman_loop_last:
  assumes "Suc i = length roman" and "contains roman_values (roman ! i)"
  shows "roman_loop roman i result = Inr (result + roman_value (roman ! i))"
  using assms by (subst roman_loop.simps) (simp add: getitem_value roman_loop_end)

lemma roman_loop_step:
  assumes "Suc i < length roman"
    and "contains roman_values (roman ! i)" and "contains roman_values (roman ! Suc i)"
  shows "roman_loop roman i result =
         roman_loop roman (Suc i)
           (result + (if roman_value (roman ! i) < roman_value (roman ! Suc i)
                      then - roman_value (roman ! i) else roman_value (roman ! i)))"
  using assms by (subst roman_loop.simps) (simp add: getitem_value)

lemma roman_loop_sum:
  assumes valid: "list_all (contains roman_values) roman"
  shows "i \<le> length roman \<Longrightarrow>
         roman_loop roman i result = Inr (result + roman_sum (drop i roman))"
proof (induction "length roman - i" arbitrary: i result)
  case 0
  then show ?case
    by (simp add: roman_loop_end)
next
  case (Suc n)
  then have i: "i < length roman"
    by simp
  from valid have ok: "\<And>j. j < length roman \<Longrightarrow> contains roman_values (roman ! j)"
    by (simp add: list_all_length)
  show ?case
  proof (cases "Suc i < length roman")
    case False
    with i have last: "Suc i = length roman"
      by simp
    then have "drop i roman = [roman ! i]"
      by (metis Cons_nth_drop_Suc drop_all i order_refl)
    with last ok [OF i] show ?thesis
      by (simp add: roman_loop_last)
  next
    case True
    have d: "drop i roman = roman ! i # roman ! Suc i # drop (Suc (Suc i)) roman"
      using True i by (simp add: Cons_nth_drop_Suc)
    have d': "drop (Suc i) roman = roman ! Suc i # drop (Suc (Suc i)) roman"
      using True by (simp add: Cons_nth_drop_Suc)
    have n: "n = length roman - Suc i"
      using Suc.hyps(2) by simp
    have "roman_loop roman (Suc i) r = Inr (r + roman_sum (drop (Suc i) roman))" for r
      using Suc.hyps(1) [OF n] True by simp
    then show ?thesis
      using True ok [OF i] ok [OF True] by (simp add: roman_loop_step d d')
  qed
qed

text \<open>
  C7. For every value that is not missing, the Roman-numeral parser takes the text of
  the value, trimmed and in upper case; it returns \<open>None\<close> if a character of it is not
  one of I, V, X, L, C, D, M, and otherwise the integer that the subtractive rule gives:
  a symbol is subtracted if the next symbol's value is strictly greater and added
  otherwise. No canonical form is required.
\<close>

theorem clean_roman_rule:
  "\<not> isna v \<Longrightarrow>
     clean_roman v =
       (if list_all (\<lambda>c. c \<in> set roman_symbols) (upper (strip (str v)))
        then Inr (PInt (roman_sum (upper (strip (str v)))))
        else Inr PNone)"
proof -
  assume v: "\<not> isna v"
  have same: "list_all (\<lambda>c. c \<in> set roman_symbols) s = list_all (contains roman_values) s" for s
    by (simp add: list_all_iff contains_symbols)
  show ?thesis
  proof (cases "list_all (contains roman_values) (upper (strip (str v)))")
    case True
    then have "roman_loop (upper (strip (str v))) 0 0 = Inr (roman_sum (upper (strip (str v))))"
      using roman_loop_sum [of "upper (strip (str v))" 0 0] by simp
    with True v show ?thesis
      by (simp add: clean_roman_def same)
  next
    case False
    with v show ?thesis
      by (simp add: clean_roman_def same)
  qed
qed

theorem clean_roman_rule_witness:
  "clean_roman (PStr (lit ''IV'')) = Inr (PInt 4) \<and>
   clean_roman (PStr (lit ''XII'')) = Inr (PInt 12) \<and>
   clean_roman (PStr (lit ''ABC'')) = Inr PNone \<and>
   clean_roman (PStr (lit ''IIII'')) = Inr (PInt 4) \<and>
   clean_roman (PStr (lit ''VX'')) = Inr (PInt 5) \<and>
   clean_roman (PStr (lit '' xiv '')) = Inr (PInt 14)"
proof -
  have v: "\<not> isna (PStr s)" for s
    by simp
  have eval: "lit ''IV'' = [73, 86]" "lit ''XII'' = [88, 73, 73]" "lit ''ABC'' = [65, 66, 67]"
    "lit ''IIII'' = [73, 73, 73, 73]" "lit ''VX'' = [86, 88]"
    "lit '' xiv '' = [32, 120, 105, 118, 32]" "roman_symbols = [73, 86, 88, 76, 67, 68, 77]"
    by (simp_all add: lit_def roman_symbols_def)
  have val: "roman_value 73 = 1" "roman_value 86 = 5" "roman_value 88 = 10"
    by (simp_all add: roman_value_def roman_values_def)
  show ?thesis
    using clean_roman_rule [OF v, of "lit ''IV''"] clean_roman_rule [OF v, of "lit ''XII''"]
      clean_roman_rule [OF v, of "lit ''ABC''"] clean_roman_rule [OF v, of "lit ''IIII''"]
      clean_roman_rule [OF v, of "lit ''VX''"] clean_roman_rule [OF v, of "lit '' xiv ''"]
    by (simp add: eval val upper_def upper_char_def strip_def isspace_def)
qed

text \<open>
  C10. For every value that is not missing and whose text trims to the empty text, the
  Roman-numeral parser returns the integer 0, not \<open>None\<close>: the check of the characters
  holds of the empty text.
\<close>

theorem clean_roman_empty:
  "\<not> isna v \<Longrightarrow> strip (str v) = [] \<Longrightarrow> clean_roman v = Inr (PInt 0)"
  by (simp add: clean_roman_def upper_def roman_loop_end)

theorem clean_roman_empty_witness:
  "\<not> isna (PStr (lit ''  '')) \<and> strip (str (PStr (lit ''  ''))) = [] \<and>
   clean_roman (PStr (lit ''  '')) = Inr (PInt 0) \<and>
   clean_roman (PStr []) = Inr (PInt 0)"
proof -
  have h1: "\<not> isna (PStr s)" for s
    by simp
  have h2: "strip (str (PStr (lit ''  ''))) = []"
    by (simp add: lit_def strip_def isspace_def)
  have h3: "strip (str (PStr [])) = []"
    by (simp add: strip_def)
  show ?thesis
    using h2 clean_roman_empty [OF h1 h2] clean_roman_empty [OF h1 h3] by simp
qed

section \<open>The frame of the column loop\<close>

lemma apply_series_length: "apply_series func xs = Inr ys \<Longrightarrow> length ys = length xs"
  by (induction xs arbitrary: ys) (auto split: sum.splits)

lemma frames_print [simp]: "frames (print w l) = frames w"
  by (simp add: print_def)

lemma setitem_columnwise:
  "map_of t name = Some c \<Longrightarrow> length vals = length c \<Longrightarrow>
   list_all2 (\<lambda>x y. fst y = fst x \<and> length (snd y) = length (snd x) \<and>
                     (fst x = name \<or> snd y = snd x)) t (setitem t name vals)"
  by (induction t) (auto simp: list_all2_same split: if_splits)

lemma columnwise_trans:
  fixes t t1 t2 :: table
  assumes "list_all2 (\<lambda>x y. fst y = fst x \<and> length (snd y) = length (snd x) \<and>
                             (fst x = col \<or> snd y = snd x)) t t1"
    and "list_all2 (\<lambda>x y. fst y = fst x \<and> length (snd y) = length (snd x) \<and>
                           (fst x \<in> set cols \<or> snd y = snd x)) t1 t2"
  shows "list_all2 (\<lambda>x y. fst y = fst x \<and> length (snd y) = length (snd x) \<and>
                           (fst x = col \<or> fst x \<in> set cols \<or> snd y = snd x)) t t2"
  using assms(1) assms(2)
proof (rule list_all2_trans [rotated])
  fix a b c :: "pystr \<times> column"
  assume "fst b = fst a \<and> length (snd b) = length (snd a) \<and> (fst a = col \<or> snd b = snd a)"
    and "fst c = fst b \<and> length (snd c) = length (snd b) \<and> (fst b \<in> set cols \<or> snd c = snd b)"
  then show "fst c = fst a \<and> length (snd c) = length (snd a) \<and>
             (fst a = col \<or> fst a \<in> set cols \<or> snd c = snd a)"
    by auto
qed

lemma columnwise_skip:
  fixes t t2 :: table
  assumes "list_all2 (\<lambda>x y. fst y = fst x \<and> length (snd y) = length (snd x) \<and>
                             (fst x \<in> set cols \<or> snd y = snd x)) t t2"
  shows "list_all2 (\<lambda>x y. fst y = fst x \<and> length (snd y) = length (snd x) \<and>
                           (fst x = col \<or> fst x \<in> set cols \<or> snd y = snd x)) t t2"
  using assms by (rule list_all2_mono) auto

text \<open>The loop leaves the number of frames and every other frame as they are.\<close>

lemma process_loop_others:
  "length (frames (process_loop w df cols func)) = length (frames w) \<and>
   (\<forall>a. a \<noteq> df \<longrightarrow> frames (process_loop w df cols func) ! a = frames w ! a)"
  by (induction cols arbitrary: w) (auto split: option.splits sum.splits)

text \<open>On its own frame the loop keeps the names, their order and the length of every
  column, and changes the values of selected columns only.\<close>

lemma process_loop_columnwise:
  "df < length (frames w) \<Longrightarrow>
   list_all2 (\<lambda>x y. fst y = fst x \<and> length (snd y) = length (snd x) \<and>
                     (fst x \<in> set cols \<or> snd y = snd x))
     (frames w ! df) (frames (process_loop w df cols func) ! df)"
proof (induction cols arbitrary: w)
  case Nil
  show ?case
    by (simp add: list_all2_same)
next
  case (Cons col cols)
  show ?case
  proof (cases "map_of (frames w ! df) col")
    case None
    have "df < length (frames (print w (Warning_not_found_in_DataFrame col)))"
      using Cons.prems by simp
    from Cons.IH [OF this] None show ?thesis
      by (simp add: columnwise_skip)
  next
    case (Some series)
    show ?thesis
    proof (cases "apply_series func series")
      case (Inl e)
      have "df < length (frames (print w (Error_processing_column col e)))"
        using Cons.prems by simp
      from Cons.IH [OF this] Some Inl show ?thesis
        by (simp add: columnwise_skip)
    next
      case (Inr cleaned)
      let ?t = "frames w ! df"
      let ?w = "w\<lparr>frames := (frames w)[df := setitem ?t col cleaned]\<rparr>"
      have len: "df < length (frames ?w)"
        using Cons.prems by simp
      have t1: "frames ?w ! df = setitem ?t col cleaned"
        using Cons.prems by simp
      have step: "list_all2 (\<lambda>x y. fst y = fst x \<and> length (snd y) = length (snd x) \<and>
                                    (fst x = col \<or> snd y = snd x)) ?t (setitem ?t col cleaned)"
        using Some apply_series_length [OF Inr] by (rule setitem_columnwise)
      have rest: "list_all2 (\<lambda>x y. fst y = fst x \<and> length (snd y) = length (snd x) \<and>
                                    (fst x \<in> set cols \<or> snd y = snd x))
                    (setitem ?t col cleaned) (frames (process_loop ?w df cols func) ! df)"
        using Cons.IH [OF len] t1 by simp
      have "process_loop w df (col # cols) func = process_loop ?w df cols func"
        using Some Inr by simp
      with columnwise_trans [OF step rest] show ?thesis
        by simp
    qed
  qed
qed

text \<open>
  C1. For every store, every table \<open>T\<close> in it, every non-empty list of column names
  and every per-value function, \<open>_process_columns\<close> returns a reference to a new
  frame; the caller's table (and every other frame of the store) is as it was; the
  new frame has the names of \<open>T\<close> in the same order; every column keeps its number of
  values, so the row count is that of \<open>T\<close>; and every column whose name is not
  selected is identical to the column of \<open>T\<close>.
\<close>

theorem process_columns_frame:
  assumes "df < length (frames w)" and "cols \<noteq> []"
    and "process_columns w (DataFrame df) (PyList cols) func = (r, w')"
  shows "r = Inr (length (frames w)) \<and>
         (\<forall>a < length (frames w). frames w' ! a = frames w ! a) \<and>
         map fst (frames w' ! length (frames w)) = map fst (frames w ! df) \<and>
         map (\<lambda>x. length (snd x)) (frames w' ! length (frames w))
           = map (\<lambda>x. length (snd x)) (frames w ! df) \<and>
         (\<forall>i < length (frames w ! df). fst (frames w ! df ! i) \<notin> set cols \<longrightarrow>
            frames w' ! length (frames w) ! i = frames w ! df ! i)"
proof -
  let ?n = "length (frames w)"
  let ?w1 = "w\<lparr>frames := frames w @ [frames w ! df]\<rparr>"
  have run: "r = Inr ?n" "w' = process_loop ?w1 ?n cols func"
    using assms(2) assms(3)
    by (auto simp: process_columns_def validate_inputs_def copy_def new_frame_def)
  have n: "?n < length (frames ?w1)"
    by simp
  have new: "frames ?w1 ! ?n = frames w ! df"
    by simp
  have old: "\<forall>a < ?n. frames w' ! a = frames w ! a"
    using process_loop_others [of ?w1 ?n cols func] run(2) by (simp add: nth_append)
  have rel: "list_all2 (\<lambda>x y. fst y = fst x \<and> length (snd y) = length (snd x) \<and>
                               (fst x \<in> set cols \<or> snd y = snd x))
               (frames w ! df) (frames w' ! ?n)"
    using process_loop_columnwise [OF n, of cols func] new run(2) by simp
  have names: "map fst (frames w' ! ?n) = map fst (frames w ! df)"
    using rel by (auto simp: list_all2_conv_all_nth intro: nth_equalityI)
  have rows: "map (\<lambda>x. length (snd x)) (frames w' ! ?n)
              = map (\<lambda>x. length (snd x)) (frames w ! df)"
    using rel by (auto simp: list_all2_conv_all_nth intro: nth_equalityI)
  have same: "\<forall>i < length (frames w ! df). fst (frames w ! df ! i) \<notin> set cols \<longrightarrow>
                frames w' ! ?n ! i = frames w ! df ! i"
    using rel by (auto simp: list_all2_conv_all_nth prod_eq_iff)
  from run(1) old names rows same show ?thesis
    by simp
qed

theorem process_columns_frame_witness:
  "process_columns
     \<lparr>frames = [[(lit ''n'', [PStr (lit ''IV''), PStr (lit ''xii '')]), (lit ''u'', [PStr (lit ''a/''), PInt 3])]],
      stdout = []\<rparr>
     (DataFrame 0) (PyList [lit ''n'', lit ''zz'']) clean_roman
   = (Inr 1,
      \<lparr>frames = [[(lit ''n'', [PStr (lit ''IV''), PStr (lit ''xii '')]), (lit ''u'', [PStr (lit ''a/''), PInt 3])],
                 [(lit ''n'', [PInt 4, PInt 12]), (lit ''u'', [PStr (lit ''a/''), PInt 3])]],
       stdout = [Warning_not_found_in_DataFrame (lit ''zz'')]\<rparr>)"
proof -
  let ?t = "[(lit ''n'', [PStr (lit ''IV''), PStr (lit ''xii '')]), (lit ''u'', [PStr (lit ''a/''), PInt 3])]"
  let ?w = "\<lparr>frames = [?t], stdout = []\<rparr>"
  obtain r w' where run:
    "process_columns ?w (DataFrame 0) (PyList [lit ''n'', lit ''zz'']) clean_roman = (r, w')"
    by (cases "process_columns ?w (DataFrame 0) (PyList [lit ''n'', lit ''zz'']) clean_roman")
  have h1: "0 < length (frames ?w)"
    by simp
  have h2: "[lit ''n'', lit ''zz''] \<noteq> []"
    by simp
  note frame = process_columns_frame [OF h1 h2 run]
  have eval: "process_columns ?w (DataFrame 0) (PyList [lit ''n'', lit ''zz'']) clean_roman
    = (Inr 1, \<lparr>frames = [?t, [(lit ''n'', [PInt 4, PInt 12]), (lit ''u'', [PStr (lit ''a/''), PInt 3])]],
               stdout = [Warning_not_found_in_DataFrame (lit ''zz'')]\<rparr>)"
    by code_simp
  from frame eval show ?thesis
    by simp
qed

section \<open>Numerals with more than one dot\<close>

lemma float_unsigned_two_dots:
  assumes chars: "list_all (\<lambda>c. isdigit c \<or> c = ord CHR ''.'') s"
    and dots: "1 < count_list s (ord CHR ''.'')"
  shows "float_unsigned s = Inl ValueError"
proof -
  let ?ip = "takeWhile isdigit s" and ?rest = "dropWhile isdigit s"
  have "ord CHR ''.'' \<notin> set ?ip"
    by (auto dest: set_takeWhileD simp: isdigit_def)
  then have "count_list ?ip (ord CHR ''.'') = 0"
    by (simp add: count_list_0_iff)
  moreover have "count_list s (ord CHR ''.'') = count_list (?ip @ ?rest) (ord CHR ''.'')"
    by simp
  ultimately have more: "1 < count_list ?rest (ord CHR ''.'')"
    using dots by (simp only: count_list_append)
  then obtain c fp where rest: "?rest = c # fp"
    by (cases ?rest) auto
  have "\<not> isdigit c"
    using rest hd_dropWhile [of isdigit s] by (metis list.sel(1) list.distinct(1))
  moreover have "c \<in> set s"
    using rest by (metis list.set_intros(1) set_dropWhileD)
  ultimately have c: "c = ord CHR ''.''"
    using chars by (auto simp: list_all_iff)
  with more rest have "0 < count_list fp (ord CHR ''.'')"
    by simp
  then have "ord CHR ''.'' \<in> set fp"
    by (metis count_list_0_iff less_numeral_extra(3))
  moreover have "\<not> isdigit (ord CHR ''.'')"
    by (simp add: isdigit_def)
  ultimately have "\<not> list_all isdigit fp"
    unfolding list_all_iff by blast
  with rest show ?thesis
    by (simp add: float_unsigned_def Let_def)
qed

lemma py_float_two_dots:
  assumes "list_all (\<lambda>c. isdigit c \<or> c = ord CHR ''.'') s"
    and "1 < count_list s (ord CHR ''.'')"
  shows "py_float s = Inl ValueError"
proof (cases s)
  case Nil
  then show ?thesis
    by (simp add: py_float_def)
next
  case (Cons c cs)
  with assms(1) have "c \<noteq> ord CHR ''-''"
    by (auto simp: isdigit_def)
  with Cons float_unsigned_two_dots [OF assms] show ?thesis
    by (simp add: py_float_def)
qed

lemma filter_digits_dots:
  "list_all (\<lambda>c. isdigit c \<or> c = ord CHR ''.'')
     (filter (\<lambda>char. isdigit char \<or> char = ord CHR ''.'') s)"
  by (simp add: list_all_iff)

text \<open>
  C4. The claim is that the percentage parser turns a value whose numeric parse faults
  into \<open>None\<close>. The code does not: for every value that is not missing and whose
  extraction of digits and dots holds more than one dot, \<open>float\<close> raises ValueError
  and \<open>clean_percentage\<close> lets it out.
\<close>

theorem clean_percentage_two_dots:
  assumes "\<not> isna v"
    and "1 < count_list (filter (\<lambda>char. isdigit char \<or> char = ord CHR ''.'') (str v))
               (ord CHR ''.'')"
  shows "clean_percentage v = Inl ValueError"
proof -
  let ?cleaned = "filter (\<lambda>char. isdigit char \<or> char = ord CHR ''.'') (str v)"
  have "?cleaned \<noteq> []"
    using assms(2) by auto
  moreover have "py_float ?cleaned = Inl ValueError"
    using filter_digits_dots assms(2) by (rule py_float_two_dots)
  ultimately show ?thesis
    using assms(1) by (simp add: clean_percentage_def)
qed

text \<open>
  At \<open>1.2.3%\<close>: the exception leaves the parser, \<open>_process_columns\<close> catches it and
  skips the whole column, so the cell \<open>50%\<close> of the same column is not cleaned either.
\<close>

theorem clean_percentage_two_dots_witness:
  "clean_percentage (PStr (lit ''1.2.3%'')) = Inl ValueError \<and>
   clean_percentages
     \<lparr>frames = [[(lit ''p'', [PStr (lit ''50%''), PStr (lit ''1.2.3%'')])]], stdout = []\<rparr>
     (DataFrame 0) (PyList [lit ''p''])
   = (Inr 1,
      \<lparr>frames = [[(lit ''p'', [PStr (lit ''50%''), PStr (lit ''1.2.3%'')])],
                 [(lit ''p'', [PStr (lit ''50%''), PStr (lit ''1.2.3%'')])]],
       stdout = [Error_processing_column (lit ''p'') ValueError]\<rparr>)"
proof -
  have h1: "\<not> isna (PStr (lit ''1.2.3%''))"
    by simp
  have h2: "1 < count_list (filter (\<lambda>char. isdigit char \<or> char = ord CHR ''.'')
                   (str (PStr (lit ''1.2.3%'')))) (ord CHR ''.'')"
    by (simp add: lit_def isdigit_def)
  have col: "clean_percentages
     \<lparr>frames = [[(lit ''p'', [PStr (lit ''50%''), PStr (lit ''1.2.3%'')])]], stdout = []\<rparr>
     (DataFrame 0) (PyList [lit ''p''])
   = (Inr 1,
      \<lparr>frames = [[(lit ''p'', [PStr (lit ''50%''), PStr (lit ''1.2.3%'')])],
                 [(lit ''p'', [PStr (lit ''50%''), PStr (lit ''1.2.3%'')])]],
       stdout = [Error_processing_column (lit ''p'') ValueError]\<rparr>)"
    by code_simp
  from clean_percentage_two_dots [OF h1 h2] col show ?thesis
    by simp
qed

text \<open>
  C5. The claim is that the money parser turns a value whose extraction holds more
  than one dot into \<open>None\<close>. \<open>extract_numbers\<close> of \<open>main.py\<close> does, through its
  \<open>try\<close>; \<open>clean_amount\<close> of \<open>DataCleaner\<close> has no \<open>try\<close> and lets the
  ValueError out.
\<close>

theorem clean_amount_two_dots:
  assumes "\<not> isna v"
    and "1 < count_list (filter (\<lambda>char. isdigit char \<or> char = ord CHR ''.'') (str v))
               (ord CHR ''.'')"
  shows "clean_amount v = Inl ValueError \<and>
         extract_numbers v = (PNone, [Error_processing_value v ValueError])"
proof -
  let ?cleaned = "filter (\<lambda>char. isdigit char \<or> char = ord CHR ''.'') (str v)"
  have "?cleaned \<noteq> []"
    using assms(2) by auto
  moreover have "py_float ?cleaned = Inl ValueError"
    using filter_digits_dots assms(2) by (rule py_float_two_dots)
  ultimately show ?thesis
    using assms(1) by (simp add: clean_amount_def extract_numbers_def extract_numbers_try_def)
qed

theorem clean_amount_two_dots_witness:
  "clean_amount (PStr (lit ''1.2.3'')) = Inl ValueError \<and>
   extract_numbers (PStr (lit ''1.2.3''))
     = (PNone, [Error_processing_value (PStr (lit ''1.2.3'')) ValueError])"
proof -
  have h1: "\<not> isna (PStr (lit ''1.2.3''))"
    by simp
  have h2: "1 < count_list (filter (\<lambda>char. isdigit char \<or> char = ord CHR ''.'')
                   (str (PStr (lit ''1.2.3'')))) (ord CHR ''.'')"
    by (simp add: lit_def isdigit_def)
  from clean_amount_two_dots [OF h1 h2] show ?thesis
    by simp
qed

section \<open>The URL parser\<close>

text \<open>
  C6, as stated, fails: the loop over the prefixes does not stop at the first match, so
  \<open>https://www.test.com\<close> loses \<open>https://\<close> and then \<open>www.\<close>.
\<close>

theorem clean_url_second_prefix:
  "clean_url (PStr (lit ''https://www.test.com'')) = Inr (PStr (lit ''test.com'')) \<and>
   clean_url (PStr (lit ''https://www.test.com'')) \<noteq> Inr (PStr (lit ''www.test.com''))"
  by code_simp

text \<open>
  C6, amended. For every value that is not missing, the URL parser trims and
  lower-cases the text, then tries the prefixes \<open>http://\<close>, \<open>https://\<close> and \<open>www.\<close>
  one after the other, in this order, removing each one that the text then starts
  with. If nothing is left the result is \<open>None\<close>; if what is left is not made of
  \<open>/\<close> only, the result is what is left without its trailing \<open>/\<close> characters.
\<close>

theorem clean_url_each_prefix:
  "\<not> isna v \<Longrightarrow>
     (let s0 = lower (strip (str v));
          s1 = (if startswith s0 (lit ''http://'') then drop 7 s0 else s0);
          s2 = (if startswith s1 (lit ''https://'') then drop 8 s1 else s1);
          s3 = (if startswith s2 (lit ''www.'') then drop 4 s2 else s2)
      in (s3 = [] \<longrightarrow> clean_url v = Inr PNone) \<and>
         (rstrip_char (ord CHR ''/'') s3 \<noteq> [] \<longrightarrow>
            clean_url v = Inr (PStr (rstrip_char (ord CHR ''/'') s3))))"
proof -
  assume v: "\<not> isna v"
  have len: "length (lit ''http://'') = 7" "length (lit ''https://'') = 8"
    "length (lit ''www.'') = 4"
    by (simp_all add: lit_def)
  have empty: "rstrip_char c [] = []" for c
    by (simp add: rstrip_char_def)
  show ?thesis
    using v by (auto simp: clean_url_def url_prefixes_def Let_def len empty)
qed

theorem clean_url_each_prefix_witness:
  "clean_url (PStr (lit '' HTTPS://www.Test.com// '')) = Inr (PStr (lit ''test.com'')) \<and>
   clean_url (PStr (lit ''http://https://www.'')) = Inr PNone \<and>
   clean_url (PStr (lit ''www.test.com'')) = Inr (PStr (lit ''test.com'')) \<and>
   clean_url (PStr (lit ''https://example.com/'')) = Inr (PStr (lit ''example.com''))"
proof -
  have v: "\<not> isna (PStr s)" for s
    by simp
  have eval: "clean_url (PStr (lit '' HTTPS://www.Test.com// '')) = Inr (PStr (lit ''test.com''))"
    "clean_url (PStr (lit ''http://https://www.'')) = Inr PNone"
    "clean_url (PStr (lit ''www.test.com'')) = Inr (PStr (lit ''test.com''))"
    "clean_url (PStr (lit ''https://example.com/'')) = Inr (PStr (lit ''example.com''))"
    by code_simp+
  from clean_url_each_prefix [OF v, of "lit ''www.test.com''"] eval show ?thesis
    by simp
qed

text \<open>
  The test for an empty text comes before \<open>rstrip('/')\<close>: a text that the
  prefixes leave made of \<open>/\<close> only gives the empty text, not \<open>None\<close>.
\<close>

lemma clean_url_slashes_only:
  "clean_url (PStr (lit ''http:///'')) = Inr (PStr [])"
  by code_simp

section \<open>Validation in the cipher's methods\<close>

text \<open>
  C8. The claim is that every public method raises ValueError for an empty selector
  before any copy is made. The methods that call \<open>_process_columns\<close> do.
  \<open>encrypt_columns\<close> and \<open>decrypt_columns\<close> do not call \<open>_validate_inputs\<close>: for
  an empty selector they return a copy of the table and raise nothing.
\<close>

theorem cipher_empty_selector:
  "encrypt_columns w df [] code_name = copy w df \<and>
   decrypt_columns w df [] code_name = copy w df \<and>
   copy w df = (length (frames w), w\<lparr>frames := frames w @ [frames w ! df]\<rparr>) \<and>
   process_columns w (DataFrame df) (PyList []) func = (Inl ValueError, w)"
  by (simp add: encrypt_columns_def decrypt_columns_def copy_def new_frame_def
      process_columns_def validate_inputs_def split: prod.splits)

section \<open>The name of a decrypted column\<close>

text \<open>
  C9. The claim is that \<open>decrypt_columns\<close> names the new column by the selected name
  with the suffix \<open>_encrypted\<close> taken off its end. The code calls
  \<open>replace('_encrypted', '')\<close>, which removes every occurrence: the column
  \<open>my_encrypted_id_encrypted\<close>, which \<open>encrypt_columns\<close> makes of a column
  \<open>my_encrypted_id\<close>, is decrypted into a column \<open>my_id\<close>.
\<close>

theorem decrypt_columns_inner_occurrence:
  "encrypt_columns \<lparr>frames = [[(lit ''my_encrypted_id'', [PStr (lit ''abc'')])]], stdout = []\<rparr>
     0 [lit ''my_encrypted_id''] (lit ''k'')
   = (2, \<lparr>frames = [[(lit ''my_encrypted_id'', [PStr (lit ''abc'')])],
                    [(lit ''my_encrypted_id'', [PStr (lit ''abc'')]),
                     (lit ''my_encrypted_id_encrypted'', [PStr [76, 77, 78]])],
                    [(lit ''my_encrypted_id_encrypted'', [PStr [76, 77, 78]])]],
          stdout = []\<rparr>) \<and>
   decrypt_columns \<lparr>frames = [[(lit ''my_encrypted_id_encrypted'', [PStr [76, 77, 78]])]],
                    stdout = []\<rparr>
     0 [lit ''my_encrypted_id_encrypted''] (lit ''k'')
   = (2, \<lparr>frames = [[(lit ''my_encrypted_id_encrypted'', [PStr [76, 77, 78]])],
                    [(lit ''my_encrypted_id_encrypted'', [PStr [76, 77, 78]]),
                     (lit ''my_id'', [PStr (lit ''abc'')])],
                    [(lit ''my_id'', [PStr (lit ''abc'')])]],
          stdout = []\<rparr>)"
  by code_simp

section \<open>Further properties of the code\<close>

text \<open>
  The call-level checks of \<open>_process_columns\<close>: TypeError when the first argument is
  not a DataFrame or the second is not a list, ValueError when the list is empty. In
  each case no copy has been made and nothing printed: the world is as it was.
\<close>

theorem process_columns_validation:
  "(\<not> is_DataFrame df \<longrightarrow> process_columns w df col_names func = (Inl TypeError, w)) \<and>
   (is_DataFrame df \<and> \<not> is_PyList col_names \<longrightarrow>
      process_columns w df col_names func = (Inl TypeError, w)) \<and>
   (is_DataFrame df \<and> col_names = PyList [] \<longrightarrow>
      process_columns w df col_names func = (Inl ValueError, w))"
  by (simp add: process_columns_def validate_inputs_def)

theorem process_columns_validation_witness:
  "process_columns \<lparr>frames = [[(lit ''a'', [PNone])]], stdout = []\<rparr> OtherObject (PyList [lit ''a''])
     clean_email = (Inl TypeError, \<lparr>frames = [[(lit ''a'', [PNone])]], stdout = []\<rparr>) \<and>
   process_columns \<lparr>frames = [[(lit ''a'', [PNone])]], stdout = []\<rparr> (DataFrame 0) OtherObject
     clean_email = (Inl TypeError, \<lparr>frames = [[(lit ''a'', [PNone])]], stdout = []\<rparr>) \<and>
   process_columns \<lparr>frames = [[(lit ''a'', [PNone])]], stdout = []\<rparr> (DataFrame 0) (PyList [])
     clean_email = (Inl ValueError, \<lparr>frames = [[(lit ''a'', [PNone])]], stdout = []\<rparr>)"
  using
    process_columns_validation [of OtherObject "\<lparr>frames = [[(lit ''a'', [PNone])]], stdout = []\<rparr>"
      "PyList [lit ''a'']" clean_email]
    process_columns_validation [of "DataFrame 0" "\<lparr>frames = [[(lit ''a'', [PNone])]], stdout = []\<rparr>"
      OtherObject clean_email]
    process_columns_validation [of "DataFrame 0" "\<lparr>frames = [[(lit ''a'', [PNone])]], stdout = []\<rparr>"
      "PyList []" clean_email]
  by simp

text \<open>
  The examples of the docstrings and of the specification, evaluated. A float is its
  exact decimal value.
\<close>

theorem parser_examples:
  "clean_phone 9 (PStr (lit ''+1 (234) 567-8901'')) = Inr (PStr (lit ''12345678901'')) \<and>
   clean_phone 9 (PStr (lit ''123-456'')) = Inr PNone \<and>
   clean_amount (PStr (lit ''$123.45'')) = Inr (PFloat (12345 / 100)) \<and>
   clean_amount (PStr (lit ''1,234'')) = Inr (PFloat 1234) \<and>
   clean_amount (PStr (lit ''free'')) = Inr PNone \<and>
   clean_percentage (PStr (lit ''50%'')) = Inr (PFloat (5 / 10)) \<and>
   clean_percentage (PStr (lit ''12.5%'')) = Inr (PFloat (125 / 1000)) \<and>
   clean_percentage (PStr (lit ''invalid'')) = Inr PNone \<and>
   clean_scientific (PStr (lit ''1.23e-4'')) = Inr (PFloat (123 / 1000000)) \<and>
   clean_scientific (PStr (lit ''1e3'')) = Inr (PFloat 1000) \<and>
   clean_scientific (PStr (lit ''invalid'')) = Inr PNone \<and>
   clean_email (PStr (lit ''User@Example.com '')) = Inr (PStr (lit ''user@example.com'')) \<and>
   clean_email (PStr (lit ''invalid'')) = Inr PNone"
proof -
  have phone: "clean_phone 9 (PStr (lit ''+1 (234) 567-8901'')) = Inr (PStr (lit ''12345678901''))"
    "clean_phone 9 (PStr (lit ''123-456'')) = Inr PNone"
    by (simp_all add: clean_phone_def lit_def isdigit_def)
  have amount: "clean_amount (PStr (lit ''$123.45'')) = Inr (PFloat (12345 / 100))"
    "clean_amount (PStr (lit ''1,234'')) = Inr (PFloat 1234)"
    "clean_amount (PStr (lit ''free'')) = Inr PNone"
    by (simp_all add: clean_amount_def lit_def isdigit_def py_float_def float_unsigned_def
        digits_value_def)
  have percentage: "clean_percentage (PStr (lit ''50%'')) = Inr (PFloat (5 / 10))"
    "clean_percentage (PStr (lit ''12.5%'')) = Inr (PFloat (125 / 1000))"
    "clean_percentage (PStr (lit ''invalid'')) = Inr PNone"
    by (simp_all add: clean_percentage_def lit_def isdigit_def py_float_def float_unsigned_def
        digits_value_def)
  have scientific: "clean_scientific (PStr (lit ''1.23e-4'')) = Inr (PFloat (123 / 1000000))"
    "clean_scientific (PStr (lit ''1e3'')) = Inr (PFloat 1000)"
    "clean_scientific (PStr (lit ''invalid'')) = Inr PNone"
    by (simp_all add: clean_scientific_def scientific_try_def lit_def lower_def lower_char_def
        isdigit_def py_float_def float_unsigned_def digits_value_def power_int_def power_divide)
  have email: "clean_email (PStr (lit ''User@Example.com '')) = Inr (PStr (lit ''user@example.com''))"
    "clean_email (PStr (lit ''invalid'')) = Inr PNone"
    by (simp_all add: clean_email_def lit_def lower_def lower_char_def strip_def isspace_def)
  from phone amount percentage scientific email show ?thesis
    by (simp only: simp_thms)
qed

text \<open>
  One selected name in \<open>encrypt_columns\<close>. When the table has the column, the
  returned frame has a column of that name with \<open>_encrypted\<close> appended, holding the
  encrypted values, and no column of the selected name; nothing is printed and the
  caller's frame is unchanged. When the table does not have it, the returned frame
  is a plain copy and one warning is printed; \<open>decrypt_columns\<close> does the same.
\<close>

lemma map_of_setitem: "map_of (setitem t name vals) name = Some vals"
  by (induction t) auto

lemma map_of_drop_column:
  "map_of (drop_column t name) m = (if m = name then None else map_of t m)"
  by (induction t) (auto simp: drop_column_def)

lemma encrypt_columns_present:
  assumes "df < length (frames w)" and "map_of (frames w ! df) col = Some series"
  shows "encrypt_columns w df [col] code_name =
     (Suc (length (frames w)),
      w\<lparr>frames := frames w @
          [setitem (frames w ! df) (col @ lit ''_encrypted'')
             (map (\<lambda>x. encrypt_value x code_name) series),
           drop_column (setitem (frames w ! df) (col @ lit ''_encrypted'')
              (map (\<lambda>x. encrypt_value x code_name) series)) col]\<rparr>)"
  using assms
  by (simp add: encrypt_columns_def copy_def new_frame_def Let_def nth_append)

lemma cipher_columns_absent:
  assumes "df < length (frames w)" and "map_of (frames w ! df) col = None"
  shows "encrypt_columns w df [col] code_name
           = (length (frames w),
              \<lparr>frames = frames w @ [frames w ! df],
               stdout = stdout w @ [Warning_not_found col]\<rparr>)"
    and "decrypt_columns w df [col] code_name
           = (length (frames w),
              \<lparr>frames = frames w @ [frames w ! df],
               stdout = stdout w @ [Warning_not_found col]\<rparr>)"
  using assms
  by (simp_all add: encrypt_columns_def decrypt_columns_def copy_def new_frame_def print_def
      nth_append)

theorem encrypt_columns_one_name:
  assumes "df < length (frames w)"
  shows "(\<forall>series. map_of (frames w ! df) col = Some series \<longrightarrow>
            (case encrypt_columns w df [col] code_name of
               (r, w') \<Rightarrow>
                 map_of (frames w' ! r) (col @ lit ''_encrypted'')
                   = Some (map (\<lambda>x. encrypt_value x code_name) series) \<and>
                 map_of (frames w' ! r) col = None \<and>
                 stdout w' = stdout w \<and>
                 frames w' ! df = frames w ! df)) \<and>
         (map_of (frames w ! df) col = None \<longrightarrow>
            encrypt_columns w df [col] code_name
              = (length (frames w),
                 \<lparr>frames = frames w @ [frames w ! df],
                  stdout = stdout w @ [Warning_not_found col]\<rparr>) \<and>
            decrypt_columns w df [col] code_name
              = (length (frames w),
                 \<lparr>frames = frames w @ [frames w ! df],
                  stdout = stdout w @ [Warning_not_found col]\<rparr>))"
proof (intro conjI allI impI)
  fix series
  assume present: "map_of (frames w ! df) col = Some series"
  have differ: "col @ lit ''_encrypted'' \<noteq> col"
    by (simp add: lit_def)
  show "case encrypt_columns w df [col] code_name of
          (r, w') \<Rightarrow>
            map_of (frames w' ! r) (col @ lit ''_encrypted'')
              = Some (map (\<lambda>x. encrypt_value x code_name) series) \<and>
            map_of (frames w' ! r) col = None \<and>
            stdout w' = stdout w \<and>
            frames w' ! df = frames w ! df"
    using assms differ
    by (simp add: encrypt_columns_present [OF assms present] nth_append
        map_of_setitem map_of_drop_column)
next
  assume "map_of (frames w ! df) col = None"
  then show "encrypt_columns w df [col] code_name
      = (length (frames w),
         \<lparr>frames = frames w @ [frames w ! df], stdout = stdout w @ [Warning_not_found col]\<rparr>)"
    using assms by (simp add: cipher_columns_absent)
next
  assume "map_of (frames w ! df) col = None"
  then show "decrypt_columns w df [col] code_name
      = (length (frames w),
         \<lparr>frames = frames w @ [frames w ! df], stdout = stdout w @ [Warning_not_found col]\<rparr>)"
    using assms by (simp add: cipher_columns_absent)
qed

theorem encrypt_columns_one_name_witness:
  "encrypt_columns \<lparr>frames = [[(lit ''id'', [PStr (lit ''abc''), PNone])]], stdout = []\<rparr>
     0 [lit ''id''] (lit ''k'')
   = (2, \<lparr>frames = [[(lit ''id'', [PStr (lit ''abc''), PNone])],
                    [(lit ''id'', [PStr (lit ''abc''), PNone]),
                     (lit ''id_encrypted'', [PStr [76, 77, 78], PNone])],
                    [(lit ''id_encrypted'', [PStr [76, 77, 78], PNone])]],
          stdout = []\<rparr>) \<and>
   encrypt_columns \<lparr>frames = [[(lit ''id'', [PStr (lit ''abc''), PNone])]], stdout = []\<rparr>
     0 [lit ''zz''] (lit ''k'')
   = (1, \<lparr>frames = [[(lit ''id'', [PStr (lit ''abc''), PNone])],
                    [(lit ''id'', [PStr (lit ''abc''), PNone])]],
          stdout = [Warning_not_found (lit ''zz'')]\<rparr>)"
proof -
  let ?w = "\<lparr>frames = [[(lit ''id'', [PStr (lit ''abc''), PNone])]], stdout = []\<rparr>"
  have h: "0 < length (frames ?w)"
    by simp
  have eval: "encrypt_columns ?w 0 [lit ''id''] (lit ''k'')
   = (2, \<lparr>frames = [[(lit ''id'', [PStr (lit ''abc''), PNone])],
                    [(lit ''id'', [PStr (lit ''abc''), PNone]),
                     (lit ''id_encrypted'', [PStr [76, 77, 78], PNone])],
                    [(lit ''id_encrypted'', [PStr [76, 77, 78], PNone])]],
          stdout = []\<rparr>)"
    by code_simp
  have absent: "map_of (frames ?w ! 0) (lit ''zz'') = None"
    by (simp add: lit_def)
  from encrypt_columns_one_name [OF h, of "lit ''zz''" "lit ''k''"] absent eval show ?thesis
    by simp
qed

text \<open>
  Selecting names that the table does not have: the call still returns a frame, and
  prints exactly one warning for each selected name that is missing, in the order of
  the selection.
\<close>

lemma warned_append: "warned (ls @ ms) = warned ls @ warned ms"
  by (induction ls rule: warned.induct) auto

lemma setitem_absent:
  "map_of t name = Some c \<Longrightarrow>
   (map_of (setitem t name vals) m = None) = (map_of t m = None)"
  by (induction t) (auto split: if_splits)

lemma process_loop_warned:
  "df < length (frames w) \<Longrightarrow>
   warned (stdout (process_loop w df cols func))
     = warned (stdout w) @ filter (\<lambda>c. map_of (frames w ! df) c = None) cols"
proof (induction cols arbitrary: w)
  case Nil
  show ?case
    by simp
next
  case (Cons col cols)
  show ?case
  proof (cases "map_of (frames w ! df) col")
    case None
    let ?w = "print w (Warning_not_found_in_DataFrame col)"
    have "df < length (frames ?w)"
      using Cons.prems by simp
    from Cons.IH [OF this] None show ?thesis
      by (simp add: print_def warned_append)
  next
    case (Some series)
    show ?thesis
    proof (cases "apply_series func series")
      case (Inl e)
      let ?w = "print w (Error_processing_column col e)"
      have "df < length (frames ?w)"
        using Cons.prems by simp
      from Cons.IH [OF this] Some Inl show ?thesis
        by (simp add: print_def warned_append)
    next
      case (Inr cleaned)
      let ?w = "w\<lparr>frames := (frames w)[df := setitem (frames w ! df) col cleaned]\<rparr>"
      have "df < length (frames ?w)"
        using Cons.prems by simp
      from Cons.IH [OF this] Some Inr Cons.prems show ?thesis
        by (simp add: setitem_absent [OF Some])
    qed
  qed
qed

theorem process_columns_warnings:
  assumes "df < length (frames w)" and "cols \<noteq> []"
    and "process_columns w (DataFrame df) (PyList cols) func = (r, w')"
  shows "r = Inr (length (frames w)) \<and>
         warned (stdout w')
           = warned (stdout w) @ filter (\<lambda>c. map_of (frames w ! df) c = None) cols"
proof -
  let ?w1 = "w\<lparr>frames := frames w @ [frames w ! df]\<rparr>"
  have run: "r = Inr (length (frames w))" "w' = process_loop ?w1 (length (frames w)) cols func"
    using assms(2) assms(3)
    by (auto simp: process_columns_def validate_inputs_def copy_def new_frame_def)
  have "length (frames w) < length (frames ?w1)"
    by simp
  from process_loop_warned [OF this, of cols func] run show ?thesis
    by simp
qed

theorem process_columns_warnings_witness:
  "process_columns
     \<lparr>frames = [[(lit ''n'', [PStr (lit ''IV'')])]], stdout = []\<rparr>
     (DataFrame 0) (PyList [lit ''y'', lit ''n'', lit ''x'']) clean_roman
   = (Inr 1,
      \<lparr>frames = [[(lit ''n'', [PStr (lit ''IV'')])], [(lit ''n'', [PInt 4])]],
       stdout = [Warning_not_found_in_DataFrame (lit ''y''),
                 Warning_not_found_in_DataFrame (lit ''x'')]\<rparr>)"
proof -
  let ?w = "\<lparr>frames = [[(lit ''n'', [PStr (lit ''IV'')])]], stdout = []\<rparr>"
  have h1: "0 < length (frames ?w)"
    by simp
  have h2: "[lit ''y'', lit ''n'', lit ''x''] \<noteq> []"
    by simp
  have eval: "process_columns ?w (DataFrame 0) (PyList [lit ''y'', lit ''n'', lit ''x'']) clean_roman
   = (Inr 1,
      \<lparr>frames = [[(lit ''n'', [PStr (lit ''IV'')])], [(lit ''n'', [PInt 4])]],
       stdout = [Warning_not_found_in_DataFrame (lit ''y''),
                 Warning_not_found_in_DataFrame (lit ''x'')]\<rparr>)"
    by code_simp
  from process_columns_warnings [OF h1 h2 eval] eval show ?thesis
    by simp
qed

end
